theory Spec2Isabelle
  imports Complex_Main
begin

section \<open>Numeric model\<close>

text \<open>
  The agent computes on numpy arrays of floats. Arrays are modelled as lists and the
  numbers as \<^typ>\<open>real\<close>. In the unit memory and the counters of \<open>AgentModel\<close>, where a
  result depends on it, every float64 operation is followed by the rounding of float64
  arithmetic, which is a parameter (\<open>float_round\<close>); the discounting and the
  renormalization are carried out exactly, without rounding.
\<close>

datatype error = IndexError | KeyError | ValueError

section \<open>Discounting (\<open>discount\<close>, PySC2\_A3C\_Agent.py line 56)\<close>

text \<open>
  \<^verbatim>\<open>def discount(x, gamma):
      return scipy.signal.lfilter([1], [1, -gamma], x[::-1], axis=0)[::-1]\<close>

  \<open>scipy.signal.lfilter b a x\<close> is the linear filter
  \<open>a[0]*y[n] = b[0]*x[n] + ... + b[M]*x[n-M] - a[1]*y[n-1] - ... - a[N]*y[n-N]\<close>
  started at rest. \<open>lfilter_run\<close> carries the inputs and outputs seen so far, most
  recent first; \<open>dot\<close> stops at the shorter list, which is the filter at rest.
  scipy rejects an empty \<open>a\<close>; \<open>discount\<close> never passes one.
\<close>

definition dot :: "real list \<Rightarrow> real list \<Rightarrow> real" where
  "dot cs hs = sum_list (map (\<lambda>(c, h). c * h) (zip cs hs))"

fun lfilter_run ::
  "real list \<Rightarrow> real \<Rightarrow> real list \<Rightarrow> real list \<Rightarrow> real list \<Rightarrow> real list \<Rightarrow> real list" where
  "lfilter_run b a0 ar xh yh [] = []"
| "lfilter_run b a0 ar xh yh (x # xs) =
     (let y = (dot b (x # xh) - dot ar yh) / a0
      in y # lfilter_run b a0 ar (x # xh) (y # yh) xs)"

fun lfilter :: "real list \<Rightarrow> real list \<Rightarrow> real list \<Rightarrow> real list" where
  "lfilter b [] x = []"
| "lfilter b (a0 # ar) x = lfilter_run b a0 ar [] [] x"

definition discount :: "real list \<Rightarrow> real \<Rightarrow> real list" where
  "discount x gamma = rev (lfilter [1] [1, - gamma] (rev x))"

text \<open>
  The recurrence the specification gives for \<open>discount\<close>:
  \<open>y[i] = x[i] + gamma * y[i+1]\<close>, with \<open>y[n] = 0\<close> beyond the end.
\<close>

fun discount_rec :: "real list \<Rightarrow> real \<Rightarrow> real list" where
  "discount_rec [] gamma = []"
| "discount_rec (x # xs) gamma =
     (x + gamma * (case discount_rec xs gamma of [] \<Rightarrow> 0 | y # _ \<Rightarrow> y)) # discount_rec xs gamma"

text \<open>
  An auxiliary form of the filter of \<open>discount\<close>, which only remembers \<open>gamma\<close> times
  its last output.
\<close>

fun lf :: "real \<Rightarrow> real \<Rightarrow> real list \<Rightarrow> real list" where
  "lf g z [] = []"
| "lf g z (x # xs) = (x + z) # lf g (g * (x + z)) xs"

section \<open>Training targets (\<open>Worker.train\<close>, lines 398 to 404)\<close>

text \<open>
  A row of the rollout, as \<open>Worker.work\<close> appends it (line 498): the three observation
  tensors before and after the step are kept abstract (\<open>'o\<close>), the sampled arguments
  are a dictionary from argument name to a dictionary from dimension to value.
\<close>

record 'o rollout_step =
  step_s :: 'o
  step_base_action :: nat
  step_arg_sample :: "(string \<times> (nat \<times> int) list) list"
  step_r :: real
  step_s1 :: 'o
  step_episode_end :: bool
  step_v :: real

text \<open>
  \<^verbatim>\<open>self.rewards_plus = np.asarray(rewards.tolist() + [bootstrap_value])
  discounted_rewards = discount(self.rewards_plus,gamma)[:-1]
  self.value_plus = np.asarray(values.tolist() + [bootstrap_value])
  advantages = rewards + gamma * self.value_plus[1:] - self.value_plus[:-1]
  advantages = discount(advantages,gamma)\<close>

  \<open>rollout[:,0]\<close> on an empty rollout is an IndexError.
\<close>

definition td_residuals :: "real list \<Rightarrow> real list \<Rightarrow> real \<Rightarrow> real list" where
  "td_residuals rewards value_plus gamma =
     map (\<lambda>(r, v1, v0). r + gamma * v1 - v0) (zip rewards (zip (tl value_plus) (butlast value_plus)))"

definition computeAdvantages ::
  "real list \<Rightarrow> real list \<Rightarrow> real \<Rightarrow> real \<Rightarrow> real list \<times> real list" where
  "computeAdvantages rewards vals bootstrap_value gamma =
     (let rewards_plus = rewards @ [bootstrap_value];
          discounted_rewards = butlast (discount rewards_plus gamma);
          value_plus = vals @ [bootstrap_value];
          advantages = td_residuals rewards value_plus gamma
      in (discounted_rewards, discount advantages gamma))"

definition train_targets ::
  "'o rollout_step list \<Rightarrow> real \<Rightarrow> real \<Rightarrow> error + real list \<times> real list" where
  "train_targets rollout gamma bootstrap_value =
     (if rollout = [] then Inl IndexError
      else Inr (computeAdvantages (map step_r rollout) (map step_v rollout) bootstrap_value gamma))"

section \<open>Python values\<close>

text \<open>
  A failing call is the value \<open>Inl\<close> of the exception. A dictionary is an association
  list in insertion order; \<open>d[k]\<close> raises KeyError on a missing key.
\<close>

definition dict_get :: "('k \<times> 'a) list \<Rightarrow> 'k \<Rightarrow> error + 'a" where
  "dict_get d k = (case map_of d k of None \<Rightarrow> Inl KeyError | Some x \<Rightarrow> Inr x)"

text \<open>
  The integer arrays of an observation have one, two or three axes. \<open>reshape_flat\<close> is
  \<open>a.reshape(-1)\<close> (row-major), \<open>shape_at a k\<close> is \<open>a.shape[k]\<close>, \<open>index3 a c i j\<close> is
  \<open>a[c, i, j]\<close> for indices that are not negative.
\<close>

datatype ndarray = Arr1 "int list" | Arr2 "int list list" | Arr3 "int list list list"

fun reshape_flat :: "ndarray \<Rightarrow> int list" where
  "reshape_flat (Arr1 xs) = xs"
| "reshape_flat (Arr2 xss) = concat xss"
| "reshape_flat (Arr3 xsss) = concat (concat xsss)"

fun shape :: "ndarray \<Rightarrow> nat list" where
  "shape (Arr1 xs) = [length xs]"
| "shape (Arr2 xss) = [length xss, (case xss of [] \<Rightarrow> 0 | r # _ \<Rightarrow> length r)]"
| "shape (Arr3 xsss) =
     [length xsss,
      (case xsss of [] \<Rightarrow> 0 | p # _ \<Rightarrow> length p),
      (case xsss of [] \<Rightarrow> 0 | p # _ \<Rightarrow> (case p of [] \<Rightarrow> 0 | r # _ \<Rightarrow> length r))]"

definition shape_at :: "ndarray \<Rightarrow> nat \<Rightarrow> error + nat" where
  "shape_at a k = (if k < length (shape a) then Inr (shape a ! k) else Inl IndexError)"

fun index3 :: "ndarray \<Rightarrow> nat \<Rightarrow> nat \<Rightarrow> nat \<Rightarrow> error + int" where
  "index3 (Arr3 a) c i j =
     (if c < length a \<and> i < length (a ! c) \<and> j < length (a ! c ! i)
      then Inr (a ! c ! i ! j) else Inl IndexError)"
| "index3 (Arr2 a) c i j = Inl IndexError"
| "index3 (Arr1 a) c i j = Inl IndexError"

text \<open>
  \<open>np.stack(a, axis=2)\<close> of an array of shape (C, H, W) has shape (H, W, C); with fewer
  axes numpy rejects the axis.
\<close>

fun stack_axis2 :: "ndarray \<Rightarrow> error + int list list list" where
  "stack_axis2 (Arr3 a) = Inr (map transpose (transpose a))"
| "stack_axis2 (Arr2 a) = Inl ValueError"
| "stack_axis2 (Arr1 a) = Inl ValueError"

section \<open>What the agent imports\<close>

text \<open>
  \<open>SC2Definitions\<close> (\<open>UNIT_TYPES\<close>, \<open>ACTIONS\<close>) and pysc2 (\<open>actions.FUNCTIONS\<close>,
  \<open>sc2_env.races\<close>, \<open>features.SCREEN_FEATURES\<close>, \<open>Features.observation_spec\<close>) are
  imported by the agent and are parameters here, and so is the rounding of numpy's float64
  arithmetic: \<open>float_round x\<close> is the float64 that the operation with the exact result
  \<open>x\<close> returns. \<open>ACTIONS_race\<close> is \<open>ACTIONS[race]\<close> as it stands after
  \<open>classify_actions\<close>. A pysc2 \<open>ArgumentType\<close> is the named tuple
  (id, name, sizes, fn) and a \<open>Function\<close> the named tuple with the fields id, name and
  args, among others.
\<close>

record argument_type =
  arg_id :: nat
  arg_name :: string
  sizes :: "nat list"

record sc2_function =
  fn_id :: nat
  fn_name :: string
  args :: "argument_type list"

record sc2_definitions =
  UNIT_TYPES :: nat
  ACTIONS_N :: "nat list"
  ACTIONS_race :: "string \<Rightarrow> nat list"
  FUNCTIONS :: "sc2_function list"
  races :: "string list"
  PLAYER_RELATIVE :: nat
  UNIT_TYPE :: nat
  observation_spec :: "(string \<times> nat list) list"
  float_round :: "real \<Rightarrow> real"

definition ENEMY :: int where
  "ENEMY = 4"

definition SELECT_SIZE :: nat where
  "SELECT_SIZE = 7"

datatype step_type = FIRST | MID | LAST

record timestep =
  step_kind :: step_type
  reward :: real
  observation :: "(string \<times> ndarray) list"

section \<open>\<open>AgentModel\<close> (lines 74 to 199)\<close>

record agent_model =
  screen_size :: nat
  save_increment :: nat
  max_episodes_kept :: nat
  minimap_size :: nat
  is_training :: bool
  race :: string
  variable_features :: "(string \<times> nat) list"
  general_actions :: "nat list"
  race_actions :: "nat list"
  action_count :: nat
  used_actions_N :: "real list"
  used_actions_race :: "real list"
  last_action_used :: nat
  max_units_seen :: "real list"
  nonspatial_size :: nat

definition setup_actions :: "sc2_definitions \<Rightarrow> agent_model \<Rightarrow> agent_model" where
  "setup_actions d m =
     m\<lparr>general_actions := ACTIONS_N d,
       race_actions := ACTIONS_race d (race m),
       used_actions_N := replicate (length (ACTIONS_N d)) 0,
       used_actions_race := replicate (length (ACTIONS_race d (race m))) 0,
       action_count := length (ACTIONS_N d) + length (ACTIONS_race d (race m))\<rparr>"

definition reset :: "sc2_definitions \<Rightarrow> agent_model \<Rightarrow> agent_model" where
  "reset d m =
     m\<lparr>last_action_used := 0,
       max_units_seen := replicate (UNIT_TYPES d) 0,
       used_actions_N := replicate (length (general_actions m)) 0,
       used_actions_race := replicate (length (race_actions m)) 0\<rparr>"

definition functions_at :: "sc2_definitions \<Rightarrow> nat \<Rightarrow> error + sc2_function" where
  "functions_at d k = (if k < length (FUNCTIONS d) then Inr (FUNCTIONS d ! k) else Inl IndexError)"

definition get_action :: "sc2_definitions \<Rightarrow> agent_model \<Rightarrow> nat \<Rightarrow> error + sc2_function" where
  "get_action d m action_index =
     (if action_index < length (general_actions m)
      then functions_at d (general_actions m ! action_index)
      else if action_index - length (general_actions m) < length (race_actions m)
      then functions_at d (race_actions m ! (action_index - length (general_actions m)))
      else Inl IndexError)"

definition act :: "sc2_definitions \<Rightarrow> agent_model \<Rightarrow> nat \<Rightarrow> error + agent_model" where
  "act d m action_selected =
     (if action_selected < length (general_actions m)
      then (if action_selected < length (used_actions_N m)
            then Inr (m\<lparr>last_action_used := action_selected,
                        used_actions_N := (used_actions_N m)
                          [action_selected :=
                             float_round d (used_actions_N m ! action_selected + 1)]\<rparr>)
            else Inl IndexError)
      else (if action_selected - length (general_actions m) < length (used_actions_race m)
            then Inr (m\<lparr>last_action_used := action_selected,
                        used_actions_race := (used_actions_race m)
                          [action_selected - length (general_actions m) :=
                             float_round d
                               (used_actions_race m ! (action_selected - length (general_actions m))
                                + 1)]\<rparr>)
            else Inl IndexError))"

subsection \<open>\<open>process_observation\<close>: the enemy unit types on screen (lines 126 to 132)\<close>

text \<open>
  \<open>enemy_unit_types[t] += 1\<close>, a float64 addition: a negative index of a numpy array
  counts from the end.
\<close>

definition increment_at :: "(real \<Rightarrow> real) \<Rightarrow> real list \<Rightarrow> int \<Rightarrow> error + real list" where
  "increment_at fl cnt t =
     (let k = (if t < 0 then int (length cnt) + t else t)
      in if 0 \<le> k \<and> k < int (length cnt)
         then Inr (cnt[nat k := fl (cnt ! nat k + 1)]) else Inl IndexError)"

definition scan_cell ::
  "sc2_definitions \<Rightarrow> ndarray \<Rightarrow> real list \<Rightarrow> nat \<times> nat \<Rightarrow> error + real list" where
  "scan_cell d scr cnt ij =
     (case index3 scr (PLAYER_RELATIVE d) (fst ij) (snd ij) of
        Inl e \<Rightarrow> Inl e
      | Inr p \<Rightarrow>
          if p = ENEMY
          then (case index3 scr (UNIT_TYPE d) (fst ij) (snd ij) of
                  Inl e \<Rightarrow> Inl e
                | Inr t \<Rightarrow> if t < int (UNIT_TYPES d) then increment_at (float_round d) cnt t
                          else Inr cnt)
          else Inr cnt)"

fun scan_cells ::
  "sc2_definitions \<Rightarrow> ndarray \<Rightarrow> real list \<Rightarrow> (nat \<times> nat) list \<Rightarrow> error + real list" where
  "scan_cells d scr cnt [] = Inr cnt"
| "scan_cells d scr cnt (ij # rest) =
     (case scan_cell d scr cnt ij of
        Inl e \<Rightarrow> Inl e
      | Inr cnt' \<Rightarrow> scan_cells d scr cnt' rest)"

text \<open>
  The two loops run \<open>i\<close> over \<open>shape[0]\<close> and \<open>j\<close> over \<open>shape[1]\<close> of the screen array,
  and read the cells \<open>[_PLAYER_RELATIVE, i, j]\<close> and \<open>[_UNIT_TYPE, i, j]\<close>.
\<close>

definition count_enemy_unit_types ::
  "sc2_definitions \<Rightarrow> agent_model \<Rightarrow> ndarray \<Rightarrow> error + real list" where
  "count_enemy_unit_types d m scr =
     (case shape_at scr 0 of
        Inl e \<Rightarrow> Inl e
      | Inr n0 \<Rightarrow>
          if n0 = 0 then Inr (replicate (length (max_units_seen m)) 0)
          else (case shape_at scr 1 of
                  Inl e \<Rightarrow> Inl e
                | Inr n1 \<Rightarrow>
                    scan_cells d scr (replicate (length (max_units_seen m)) 0)
                      (List.product [0..<n0] [0..<n1])))"

text \<open>
  \<^verbatim>\<open>for i in range(1, SC2Definitions.UNIT_TYPES):
      self.max_units_seen[i] = max(self.max_units_seen[i]*3/4, enemy_unit_types[i])\<close>

  \<open>x*3/4\<close> is two float64 operations, the product by 3 and then the quotient by 4, each
  rounded (\<open>fl\<close>).
\<close>

fun update_units_seen ::
  "(real \<Rightarrow> real) \<Rightarrow> nat list \<Rightarrow> real list \<Rightarrow> real list \<Rightarrow> error + real list" where
  "update_units_seen fl [] mus cnt = Inr mus"
| "update_units_seen fl (i # rest) mus cnt =
     (if i < length mus \<and> i < length cnt
      then update_units_seen fl rest (mus[i := max (fl (fl (mus ! i * 3) / 4)) (cnt ! i)]) cnt
      else Inl IndexError)"

subsection \<open>\<open>process_observation\<close>: the nonspatial vector (lines 134 to 157)\<close>

fun available_actions_vector ::
  "sc2_definitions \<Rightarrow> agent_model \<Rightarrow> (string \<times> ndarray) list \<Rightarrow> nat list \<Rightarrow> error + real list" where
  "available_actions_vector d m obs [] = Inr []"
| "available_actions_vector d m obs (i # rest) =
     (case get_action d m i of
        Inl e \<Rightarrow> Inl e
      | Inr f \<Rightarrow>
          (case dict_get obs ''available_actions'' of
             Inl e \<Rightarrow> Inl e
           | Inr av \<Rightarrow>
               (case available_actions_vector d m obs rest of
                  Inl e \<Rightarrow> Inl e
                | Inr flags \<Rightarrow>
                    Inr ((if int (fn_id f) \<in> set (reshape_flat av) then 1 else 0) # flags))))"

definition spatial_features :: "string list" where
  "spatial_features = [''minimap'', ''screen'']"

definition padded_features :: "string list" where
  "padded_features = [''cargo'', ''multi_select'', ''build_queue'']"

definition max_no :: "(string \<times> nat) list" where
  "max_no = [(''cargo'', 500), (''multi_select'', 500), (''build_queue'', 10)]"

text \<open>
  The loop over \<open>observation.observation.items()\<close>. \<open>padded_features\<close> is the local list
  \<open>variable_features\<close> of \<open>process_observation\<close>. \<open>np.zeros\<close> of a negative length is a
  ValueError.
\<close>

fun stack_features :: "(string \<times> ndarray) list \<Rightarrow> real list \<Rightarrow> error + real list" where
  "stack_features [] nonspatial_stack = Inr nonspatial_stack"
| "stack_features ((feature_label, feature) # rest) nonspatial_stack =
     (if feature_label \<notin> set (spatial_features @ padded_features @ [''available_actions''])
      then stack_features rest (nonspatial_stack @ map real_of_int (reshape_flat feature))
      else if feature_label \<in> set padded_features
      then (case dict_get max_no feature_label of
              Inl e \<Rightarrow> Inl e
            | Inr n \<Rightarrow>
                if n * SELECT_SIZE < length (reshape_flat feature) then Inl ValueError
                else stack_features rest
                       (nonspatial_stack @ map real_of_int (reshape_flat feature)
                          @ replicate (n * SELECT_SIZE - length (reshape_flat feature)) 0))
      else stack_features rest nonspatial_stack)"

record observation_tensors =
  out_reward :: real
  nonspatial_stack :: "real list list"
  minimap_stack :: "int list list list list"
  screen_stack :: "int list list list list"
  out_episode_end :: bool

definition process_observation ::
  "sc2_definitions \<Rightarrow> agent_model \<Rightarrow> timestep \<Rightarrow> error + agent_model \<times> observation_tensors" where
  "process_observation d m ts =
     (case dict_get (observation ts) ''screen'' of
        Inl e \<Rightarrow> Inl e
      | Inr scr \<Rightarrow>
     (case count_enemy_unit_types d m scr of
        Inl e \<Rightarrow> Inl e
      | Inr enemy_unit_types \<Rightarrow>
     (case update_units_seen (float_round d) [1..<UNIT_TYPES d] (max_units_seen m)
             enemy_unit_types of
        Inl e \<Rightarrow> Inl e
      | Inr mus \<Rightarrow>
     (case available_actions_vector d m (observation ts) [0..<action_count m] of
        Inl e \<Rightarrow> Inl e
      | Inr available_actions \<Rightarrow>
     (case stack_features (observation ts)
             (mus @ used_actions_N m @ used_actions_race m @ available_actions
                @ [real (last_action_used m)]) of
        Inl e \<Rightarrow> Inl e
      | Inr stack \<Rightarrow>
     (case dict_get (observation ts) ''minimap'' of
        Inl e \<Rightarrow> Inl e
      | Inr mm \<Rightarrow>
     (case stack_axis2 mm of
        Inl e \<Rightarrow> Inl e
      | Inr minimap \<Rightarrow>
     (case stack_axis2 scr of
        Inl e \<Rightarrow> Inl e
      | Inr screen \<Rightarrow>
          Inr (m\<lparr>max_units_seen := mus\<rparr>,
               \<lparr>out_reward = reward ts,
                nonspatial_stack = [stack],
                minimap_stack = [minimap],
                screen_stack = [screen],
                out_episode_end = (step_kind ts = LAST)\<rparr>)))))))))"

subsection \<open>\<open>calculate_nonspatial_size\<close> (lines 185 to 199)\<close>

fun size_features :: "(string \<times> nat) list \<Rightarrow> (string \<times> nat list) list \<Rightarrow> nat \<Rightarrow> error + nat" where
  "size_features vf [] sz = Inr sz"
| "size_features vf ((feature_label, feature) # rest) sz =
     (case map_of vf feature_label of
        Some n \<Rightarrow>
          (if 1 < length feature then size_features vf rest (sz + n * feature ! 1)
           else Inl IndexError)
      | None \<Rightarrow> size_features vf rest (sz + prod_list feature))"

definition calculate_nonspatial_size :: "sc2_definitions \<Rightarrow> agent_model \<Rightarrow> error + nat" where
  "calculate_nonspatial_size d m =
     (if map_of (observation_spec d) ''minimap'' = None then Inl KeyError
      else if map_of (observation_spec d) ''screen'' = None then Inl KeyError
      else size_features (variable_features m)
             (filter (\<lambda>lf. fst lf \<noteq> ''minimap'' \<and> fst lf \<noteq> ''screen'') (observation_spec d))
             (action_count m * 2 + (length (max_units_seen m) + 1)))"

text \<open>
  \<open>AgentModel.__init__\<close>, for a race and sizes (the branch that copies another model's
  settings differs only in where the settings come from). The channel counts of the
  spatial inputs are not kept.
\<close>

definition AgentModel ::
  "sc2_definitions \<Rightarrow> string \<Rightarrow> bool \<Rightarrow> nat \<Rightarrow> nat \<Rightarrow> nat \<Rightarrow> nat \<Rightarrow> error + agent_model" where
  "AgentModel d race0 is_training0 screen_size0 minimap_size0 max_episodes_kept0 save_increment0 =
     (if race0 \<notin> set (races d) then Inl ValueError
      else
        (let m = reset d (setup_actions d
                   \<lparr>screen_size = screen_size0, save_increment = save_increment0,
                    max_episodes_kept = max_episodes_kept0, minimap_size = minimap_size0,
                    is_training = is_training0, race = race0,
                    variable_features =
                      [(''cargo'', 500), (''multi_select'', 500), (''build_queue'', 10),
                       (''single_select'', 1)],
                    general_actions = [], race_actions = [], action_count = 0,
                    used_actions_N = [], used_actions_race = [], last_action_used = 0,
                    max_units_seen = [], nonspatial_size = 0\<rparr>)
         in (case calculate_nonspatial_size d m of
               Inl e \<Rightarrow> Inl e
             | Inr n \<Rightarrow> Inr (m\<lparr>nonspatial_size := n\<rparr>))))"

text \<open>
  An episode as the model sees it: \<open>Worker.work\<close> resets the model, then alternates
  \<open>process_observation\<close> and \<open>act\<close>.
\<close>

datatype event = Observe timestep | Act nat

fun run_events :: "sc2_definitions \<Rightarrow> agent_model \<Rightarrow> event list \<Rightarrow> error + agent_model" where
  "run_events d m [] = Inr m"
| "run_events d m (Observe ts # es) =
     (case process_observation d m ts of
        Inl e \<Rightarrow> Inl e
      | Inr res \<Rightarrow> run_events d (fst res) es)"
| "run_events d m (Act a # es) =
     (case act d m a of
        Inl e \<Rightarrow> Inl e
      | Inr m' \<Rightarrow> run_events d m' es)"

subsection \<open>Auxiliary notions for the unit memory\<close>

text \<open>
  The vector \<open>enemy_unit_types\<close> that \<open>process_observation\<close> computes from a time step.
\<close>

definition observed_enemy_unit_types ::
  "sc2_definitions \<Rightarrow> agent_model \<Rightarrow> timestep \<Rightarrow> error + real list" where
  "observed_enemy_unit_types d m ts =
     (case dict_get (observation ts) ''screen'' of
        Inl e \<Rightarrow> Inl e
      | Inr scr \<Rightarrow> count_enemy_unit_types d m scr)"

text \<open>
  What holds of \<open>max_units_seen\<close> from \<open>reset\<close> on: its length, and 0 at index 0.
\<close>

definition units_invariant :: "sc2_definitions \<Rightarrow> agent_model \<Rightarrow> bool" where
  "units_invariant d m \<longleftrightarrow>
     length (max_units_seen m) = UNIT_TYPES d
     \<and> (if 0 < UNIT_TYPES d then max_units_seen m ! 0 = 0 else True)"






section \<open>Choosing an action (\<open>sample_dist\<close>, \<open>Worker.work\<close> lines 455 to 483)\<close>

subsection \<open>Sampling\<close>

text \<open>
  \<^verbatim>\<open>def sample_dist(dist):
      sample = np.random.choice(dist[0],p=dist[0])
      sample = np.argmax(dist == sample)
      return sample\<close>

  \<open>np.random.choice(a, p=p)\<close> rejects an empty \<open>a\<close>, lengths that differ, a negative
  probability and probabilities whose sum is further than a tolerance \<open>atol\<close> from 1;
  it then draws a position of \<open>a\<close>, position \<open>j\<close> with probability \<open>p[j]\<close> over the
  sum of \<open>p\<close>, and returns the value at that position. The position it draws is the
  argument \<open>pos\<close> here, and \<open>choice_prob\<close> is the probability of each position; the
  generator draws no position beyond the array, which is the last branch.
\<close>

definition random_choice :: "real \<Rightarrow> real list \<Rightarrow> real list \<Rightarrow> nat \<Rightarrow> error + real" where
  "random_choice atol a p pos =
     (if a = [] then Inl ValueError
      else if length a \<noteq> length p then Inl ValueError
      else if list_ex (\<lambda>x. x < 0) p then Inl ValueError
      else if atol < \<bar>sum_list p - 1\<bar> then Inl ValueError
      else if pos < length a then Inr (a ! pos)
      else Inl IndexError)"

definition choice_prob :: "real list \<Rightarrow> nat \<Rightarrow> real" where
  "choice_prob p pos = (if pos < length p then p ! pos / sum_list p else 0)"

text \<open>\<open>np.argmax\<close> of an array of booleans: the first position that holds True, else 0.\<close>

fun first_True :: "bool list \<Rightarrow> nat option" where
  "first_True [] = None"
| "first_True (b # bs) = (if b then Some 0 else map_option Suc (first_True bs))"

definition argmax_bool :: "bool list \<Rightarrow> nat" where
  "argmax_bool bs = (case first_True bs of None \<Rightarrow> 0 | Some i \<Rightarrow> i)"

text \<open>A distribution is an array with one row, as the network returns it.\<close>

definition sample_dist :: "real \<Rightarrow> real list list \<Rightarrow> nat \<Rightarrow> error + nat" where
  "sample_dist atol distr pos =
     (case distr of
        [] \<Rightarrow> Inl IndexError
      | row # _ \<Rightarrow>
          (case random_choice atol row row pos of
             Inl e \<Rightarrow> Inl e
           | Inr sample \<Rightarrow> Inr (argmax_bool (map (\<lambda>x. x = sample) (concat distr)))))"

text \<open>
  The probability that \<open>sample_dist dist\<close> returns the index \<open>i\<close>: the probabilities of
  the positions whose draw leads to \<open>i\<close>, added up.
\<close>

definition sample_dist_prob :: "real \<Rightarrow> real list list \<Rightarrow> nat \<Rightarrow> real" where
  "sample_dist_prob atol distr i =
     (case distr of
        [] \<Rightarrow> 0
      | row # _ \<Rightarrow>
          sum_list (map (choice_prob row)
            (filter (\<lambda>pos. sample_dist atol distr pos = Inr i) [0..<length row])))"

subsection \<open>Removing unavailable actions and renormalizing (lines 455 to 461)\<close>

text \<open>
  \<^verbatim>\<open>for action_id, action_prob in enumerate(base_action_dist[0]):
      if self.local_AC.model.get_action(action_id).id not in obs[0].observation['available_actions']:
          base_action_dist[0][action_id] = 0
  if np.sum(base_action_dist[0]) != 1 and np.sum(base_action_dist[0]) != 0:
      current_sum = np.sum(base_action_dist[0])
      base_action_dist[0] /= current_sum\<close>

  Both steps write into the row \<open>base_action_dist[0]\<close> itself.
\<close>

fun filter_unavailable ::
  "sc2_definitions \<Rightarrow> agent_model \<Rightarrow> (string \<times> ndarray) list \<Rightarrow> nat \<Rightarrow> real list
     \<Rightarrow> error + real list" where
  "filter_unavailable d m obs action_id [] = Inr []"
| "filter_unavailable d m obs action_id (action_prob # rest) =
     (case get_action d m action_id of
        Inl e \<Rightarrow> Inl e
      | Inr f \<Rightarrow>
          (case dict_get obs ''available_actions'' of
             Inl e \<Rightarrow> Inl e
           | Inr av \<Rightarrow>
               (case filter_unavailable d m obs (Suc action_id) rest of
                  Inl e \<Rightarrow> Inl e
                | Inr rest' \<Rightarrow>
                    Inr ((if int (fn_id f) \<notin> set (reshape_flat av) then 0 else action_prob)
                         # rest'))))"

definition renormalize :: "real list \<Rightarrow> real list" where
  "renormalize distr =
     (if sum_list distr \<noteq> 1 \<and> sum_list distr \<noteq> 0
      then map (\<lambda>p. p / sum_list distr) distr else distr)"

definition filter_and_renormalize ::
  "sc2_definitions \<Rightarrow> agent_model \<Rightarrow> (string \<times> ndarray) list \<Rightarrow> real list \<Rightarrow> error + real list" where
  "filter_and_renormalize d m obs row =
     (case filter_unavailable d m obs 0 row of
        Inl e \<Rightarrow> Inl e
      | Inr masked \<Rightarrow> Inr (renormalize masked))"

definition select_base_action ::
  "sc2_definitions \<Rightarrow> agent_model \<Rightarrow> real \<Rightarrow> (string \<times> ndarray) list \<Rightarrow> real list list \<Rightarrow> nat
     \<Rightarrow> error + nat" where
  "select_base_action d m atol obs base_action_dist pos =
     (case base_action_dist of
        [] \<Rightarrow> Inl IndexError
      | row # others \<Rightarrow>
          (case filter_and_renormalize d m obs row of
             Inl e \<Rightarrow> Inl e
           | Inr row' \<Rightarrow> sample_dist atol (row' # others) pos))"

subsection \<open>Arguments (lines 463 to 482)\<close>

text \<open>
  \<^verbatim>\<open>arg_sample = dict()
  for arg in arg_dist:
      arg_sample[arg] = dict()
      for dim in arg_dist[arg]:
          arg_sample[arg][dim] = sample_dist(arg_dist[arg][dim])\<close>

  \<open>draw name dim\<close> is the position the generator draws for that distribution.
\<close>

fun sample_dims ::
  "real \<Rightarrow> (nat \<Rightarrow> nat) \<Rightarrow> (nat \<times> real list list) list \<Rightarrow> error + (nat \<times> int) list" where
  "sample_dims atol draw [] = Inr []"
| "sample_dims atol draw ((dim_k, distr) # rest) =
     (case sample_dist atol distr (draw dim_k) of
        Inl e \<Rightarrow> Inl e
      | Inr x \<Rightarrow>
          (case sample_dims atol draw rest of
             Inl e \<Rightarrow> Inl e
           | Inr xs \<Rightarrow> Inr ((dim_k, int x) # xs)))"

fun sample_args ::
  "real \<Rightarrow> (string \<Rightarrow> nat \<Rightarrow> nat) \<Rightarrow> (string \<times> (nat \<times> real list list) list) list
     \<Rightarrow> error + (string \<times> (nat \<times> int) list) list" where
  "sample_args atol draw [] = Inr []"
| "sample_args atol draw ((arg_k, dims) # rest) =
     (case sample_dims atol (draw arg_k) dims of
        Inl e \<Rightarrow> Inl e
      | Inr xs \<Rightarrow>
          (case sample_args atol draw rest of
             Inl e \<Rightarrow> Inl e
           | Inr others \<Rightarrow> Inr ((arg_k, xs) # others)))"

text \<open>
  \<^verbatim>\<open>for arg in chosen_action.args:
      arg_value = []
      for dim, size in enumerate(arg.sizes):
          arg_value.append(arg_sample[arg.name][dim])
      arguments.append(arg_value)\<close>
\<close>

fun arg_values :: "(nat \<times> int) list \<Rightarrow> nat list \<Rightarrow> error + int list" where
  "arg_values sampled [] = Inr []"
| "arg_values sampled (dim_k # rest) =
     (case dict_get sampled dim_k of
        Inl e \<Rightarrow> Inl e
      | Inr x \<Rightarrow>
          (case arg_values sampled rest of
             Inl e \<Rightarrow> Inl e
           | Inr xs \<Rightarrow> Inr (x # xs)))"

fun collect_arguments ::
  "(string \<times> (nat \<times> int) list) list \<Rightarrow> argument_type list \<Rightarrow> error + int list list" where
  "collect_arguments arg_sample [] = Inr []"
| "collect_arguments arg_sample (arg_k # rest) =
     (case (if sizes arg_k = [] then Inr []
            else (case dict_get arg_sample (arg_name arg_k) of
                    Inl e \<Rightarrow> Inl e
                  | Inr sampled \<Rightarrow> arg_values sampled [0..<length (sizes arg_k)])) of
        Inl e \<Rightarrow> Inl e
      | Inr arg_value \<Rightarrow>
          (case collect_arguments arg_sample rest of
             Inl e \<Rightarrow> Inl e
           | Inr arguments \<Rightarrow> Inr (arg_value # arguments)))"

text \<open>
  \<^verbatim>\<open># Set unused arguments to -1 so that they won't be updated in the training
  for arg_name, arg in arg_sample.items():
      if arg_name not in chosen_action.args:
          for dim in arg:
              arg_sample[arg_name][dim] = -1\<close>

  \<open>arg_name\<close> is a key of \<open>arg_sample\<close>, a string; \<open>chosen_action.args\<close> is a tuple of
  \<open>ArgumentType\<close> named tuples. \<open>x in t\<close> is true when \<open>x == e\<close> for an element \<open>e\<close> of
  \<open>t\<close>, and Python's \<open>==\<close> between a string and a tuple is False.
\<close>

datatype py_value = PyStr string | PyArgumentType argument_type

fun py_eq :: "py_value \<Rightarrow> py_value \<Rightarrow> bool" where
  "py_eq (PyStr a) (PyStr b) = (a = b)"
| "py_eq (PyArgumentType a) (PyArgumentType b) = (a = b)"
| "py_eq (PyStr a) (PyArgumentType b) = False"
| "py_eq (PyArgumentType a) (PyStr b) = False"

definition py_in :: "py_value \<Rightarrow> py_value list \<Rightarrow> bool" where
  "py_in x t = list_ex (py_eq x) t"

definition set_unused_arguments ::
  "(string \<times> (nat \<times> int) list) list \<Rightarrow> sc2_function \<Rightarrow> (string \<times> (nat \<times> int) list) list" where
  "set_unused_arguments arg_sample chosen_action =
     map (\<lambda>(arg_name, arg_k).
            if \<not> py_in (PyStr arg_name) (map PyArgumentType (args chosen_action))
            then (arg_name, map (\<lambda>(dim_k, x). (dim_k, - 1)) arg_k)
            else (arg_name, arg_k))
         arg_sample"

text \<open>
  One pass of lines 455 to 483: the index of the base action, the \<open>FunctionCall\<close> (id and
  arguments) sent to the environment, and the \<open>arg_sample\<close> that goes into the rollout.
\<close>

record action_choice =
  chosen_base_action :: nat
  call_function :: nat
  call_arguments :: "int list list"
  recorded_arg_sample :: "(string \<times> (nat \<times> int) list) list"

definition choose_action ::
  "sc2_definitions \<Rightarrow> agent_model \<Rightarrow> real \<Rightarrow> (string \<times> ndarray) list \<Rightarrow> real list list
     \<Rightarrow> (string \<times> (nat \<times> real list list) list) list \<Rightarrow> nat \<Rightarrow> (string \<Rightarrow> nat \<Rightarrow> nat)
     \<Rightarrow> error + action_choice" where
  "choose_action d m atol obs base_action_dist arg_dist pos draw =
     (case select_base_action d m atol obs base_action_dist pos of
        Inl e \<Rightarrow> Inl e
      | Inr base_action \<Rightarrow>
     (case sample_args atol draw arg_dist of
        Inl e \<Rightarrow> Inl e
      | Inr arg_sample \<Rightarrow>
     (case get_action d m base_action of
        Inl e \<Rightarrow> Inl e
      | Inr chosen_action \<Rightarrow>
     (case collect_arguments arg_sample (args chosen_action) of
        Inl e \<Rightarrow> Inl e
      | Inr arguments \<Rightarrow>
          Inr \<lparr>chosen_base_action = base_action,
               call_function = fn_id chosen_action,
               call_arguments = arguments,
               recorded_arg_sample = set_unused_arguments arg_sample chosen_action\<rparr>))))"

section \<open>The rollout buffer (\<open>Worker.work\<close>, lines 497 to 513)\<close>

text \<open>
  The part of the worker's episode state that the end of a step touches. The calls of
  \<open>self.train\<close> are kept as a log of their arguments (rollout and bootstrap value);
  \<open>bootstrap\<close> is the value \<open>v1\<close> the network gives for the newest observation.
\<close>

record 'o worker_episode =
  episode_buffer :: "'o rollout_step list"
  episode_values :: "real list"
  episode_reward :: real
  total_steps :: nat
  episode_step_count :: nat
  train_calls :: "('o rollout_step list \<times> real) list"

definition append_step :: "'o rollout_step \<Rightarrow> 'o worker_episode \<Rightarrow> 'o worker_episode" where
  "append_step row w =
     w\<lparr>episode_buffer := episode_buffer w @ [row],
       episode_values := episode_values w @ [step_v row],
       episode_reward := episode_reward w + step_r row,
       total_steps := total_steps w + 1,
       episode_step_count := episode_step_count w + 1\<rparr>"

text \<open>
  \<^verbatim>\<open>if len(episode_buffer) == self.local_AC.model.max_episodes_kept and not episode_end
        and episode_step_count != max_episode_length - 1:\<close>
\<close>

definition train_due :: "agent_model \<Rightarrow> int \<Rightarrow> bool \<Rightarrow> 'o worker_episode \<Rightarrow> bool" where
  "train_due m max_episode_length ended w \<longleftrightarrow>
     length (episode_buffer w) = max_episodes_kept m \<and> \<not> ended
     \<and> int (episode_step_count w) \<noteq> max_episode_length - 1"

definition train_if_due ::
  "agent_model \<Rightarrow> int \<Rightarrow> bool \<Rightarrow> real \<Rightarrow> 'o worker_episode \<Rightarrow> 'o worker_episode" where
  "train_if_due m max_episode_length ended bootstrap w =
     (if train_due m max_episode_length ended w
      then w\<lparr>train_calls := train_calls w @ [(episode_buffer w, bootstrap)],
             episode_buffer := drop (length (episode_buffer w) div 2) (episode_buffer w)\<rparr>
      else w)"

definition end_of_step ::
  "agent_model \<Rightarrow> int \<Rightarrow> real \<Rightarrow> 'o rollout_step \<Rightarrow> 'o worker_episode \<Rightarrow> 'o worker_episode" where
  "end_of_step m max_episode_length bootstrap row w =
     train_if_due m max_episode_length (step_episode_end row) bootstrap (append_step row w)"

section \<open>A small instance\<close>

text \<open>
  A catalogue of two functions (\<open>no_op\<close>, general, and \<open>select_army\<close>, of the race),
  two unit types, a screen of two feature layers with \<open>player_relative\<close> at index 0 and
  \<open>unit_type\<close> at index 1, and the observation specification of pysc2 for a screen of
  2 by 2 and a minimap of 1 by 1. \<open>example_model\<close> is the model \<open>AgentModel\<close> builds
  from it for race T. The numbers that arise with \<open>example_definitions\<close> are small
  integers and quarters, which float64 arithmetic does not round;
  \<open>subnormal_definitions\<close> is the same instance with the rounding to multiples of
  \<open>2^-1074\<close>.
\<close>

definition select_add :: argument_type where
  "select_add = \<lparr>arg_id = 7, arg_name = ''select_add'', sizes = [2]\<rparr>"

definition example_definitions :: sc2_definitions where
  "example_definitions =
     \<lparr>UNIT_TYPES = 2,
      ACTIONS_N = [0],
      ACTIONS_race = (\<lambda>r. [1]),
      FUNCTIONS = [\<lparr>fn_id = 0, fn_name = ''no_op'', args = []\<rparr>,
                   \<lparr>fn_id = 1, fn_name = ''select_army'', args = [select_add]\<rparr>],
      races = [''T''],
      PLAYER_RELATIVE = 0,
      UNIT_TYPE = 1,
      observation_spec =
        [(''screen'', [2, 2, 2]), (''minimap'', [1, 1, 1]), (''player'', [11]),
         (''game_loop'', [1]), (''score_cumulative'', [13]), (''available_actions'', [0]),
         (''single_select'', [0, 7]), (''multi_select'', [0, 7]), (''cargo'', [0, 7]),
         (''cargo_slots_available'', [1]), (''build_queue'', [0, 7]),
         (''control_groups'', [10, 2])],
      float_round = (\<lambda>x. x)\<rparr>"


definition example_model :: agent_model where
  "example_model =
     \<lparr>screen_size = 2, save_increment = 100, max_episodes_kept = 30, minimap_size = 1,
      is_training = False, race = ''T'',
      variable_features =
        [(''cargo'', 500), (''multi_select'', 500), (''build_queue'', 10), (''single_select'', 1)],
      general_actions = [0], race_actions = [1], action_count = 2,
      used_actions_N = [0], used_actions_race = [0], last_action_used = 0,
      max_units_seen = [0, 0], nonspatial_size = 7130\<rparr>"

text \<open>An episode whose buffer has just reached 30 rows, at step 30.\<close>

definition example_row :: "unit rollout_step" where
  "example_row = \<lparr>step_s = (), step_base_action = 0, step_arg_sample = [], step_r = 0,
     step_s1 = (), step_episode_end = False, step_v = 0\<rparr>"

definition example_episode :: "unit worker_episode" where
  "example_episode = \<lparr>episode_buffer = replicate 30 example_row, episode_values = replicate 30 0,
     episode_reward = 0, total_steps = 30, episode_step_count = 30, train_calls = []\<rparr>"

subsection \<open>Observations\<close>

text \<open>
  An observation with the fields of pysc2, for a given screen and a given
  \<open>single_select\<close>. In \<open>example_timestep\<close> the screen shows an enemy of unit type 0 and an
  enemy of unit type 1 and nothing is selected; in \<open>quiet_timestep\<close> the screen shows no
  enemy; in \<open>selected_timestep\<close> one unit is selected.
\<close>

definition example_observation :: "int list list list \<Rightarrow> int list list \<Rightarrow> (string \<times> ndarray) list" where
  "example_observation scr selected =
     [(''screen'', Arr3 scr),
      (''minimap'', Arr3 [[[0]]]),
      (''player'', Arr1 (replicate 11 0)),
      (''game_loop'', Arr1 [0]),
      (''score_cumulative'', Arr1 (replicate 13 0)),
      (''available_actions'', Arr1 [0, 1]),
      (''single_select'', Arr2 selected),
      (''multi_select'', Arr2 []),
      (''cargo'', Arr2 []),
      (''cargo_slots_available'', Arr1 [0]),
      (''build_queue'', Arr2 []),
      (''control_groups'', Arr2 (replicate 10 [0, 0]))]"

definition example_timestep :: timestep where
  "example_timestep =
     \<lparr>step_kind = MID, reward = 0,
      observation = example_observation [[[4, 0], [0, 4]], [[0, 0], [0, 1]]] []\<rparr>"

definition quiet_timestep :: timestep where
  "quiet_timestep =
     \<lparr>step_kind = MID, reward = 0,
      observation = example_observation [[[0, 0], [0, 0]], [[0, 0], [0, 0]]] []\<rparr>"

definition selected_timestep :: timestep where
  "selected_timestep =
     \<lparr>step_kind = MID, reward = 0,
      observation = example_observation [[[0, 0], [0, 0]], [[0, 0], [0, 0]]]
                      [[48, 1, 45, 0, 0, 0, 0]]\<rparr>"

section \<open>Discounting: proofs\<close>

lemma dot_single: "dot [1] (x # xh) = x"
  by (simp add: dot_def)

lemma dot_neg_gamma: "dot [- g] yh = (case yh of [] \<Rightarrow> 0 | y # _ \<Rightarrow> - g * y)"
  by (cases yh) (simp_all add: dot_def)

lemma lfilter_run_lf:
  "lfilter_run [1] 1 [- g] xh yh xs = lf g (case yh of [] \<Rightarrow> 0 | y # _ \<Rightarrow> g * y) xs"
proof (induction xs arbitrary: xh yh)
  case Nil
  show ?case by simp
next
  case (Cons x xs)
  show ?case
    by (cases yh) (simp_all add: dot_single dot_neg_gamma Cons.IH Let_def)
qed

lemma lf_Nil_iff: "lf g z xs = [] \<longleftrightarrow> xs = []"
  by (cases xs) simp_all

lemma lf_snoc:
  "lf g z (xs @ [x]) = lf g z xs @ [x + (if xs = [] then z else g * last (lf g z xs))]"
proof (induction xs arbitrary: z)
  case Nil
  show ?case by simp
next
  case (Cons a xs)
  show ?case
    by (simp add: Cons.IH lf_Nil_iff)
qed

lemma rev_lf_rev: "rev (lf g 0 (rev xs)) = discount_rec xs g"
proof (induction xs)
  case Nil
  show ?case by simp
next
  case (Cons a xs)
  show ?case
  proof (cases "xs = []")
    case True
    then show ?thesis by simp
  next
    case False
    then have ne: "lf g 0 (rev xs) \<noteq> []"
      by (simp add: lf_Nil_iff)
    have "last (lf g 0 (rev xs)) = hd (discount_rec xs g)"
      using ne Cons.IH by (metis hd_rev)
    moreover have "discount_rec xs g \<noteq> []"
      using ne Cons.IH by (metis rev_is_Nil_conv)
    ultimately show ?thesis
      using False Cons.IH by (cases "discount_rec xs g") (simp_all add: lf_snoc)
  qed
qed

lemma discount_eq_rec: "discount x g = discount_rec x g"
  by (simp add: discount_def lfilter_run_lf rev_lf_rev)

lemma length_discount_rec: "length (discount_rec x g) = length x"
  by (induction x) simp_all

lemma discount_rec_nth:
  "i < length x \<Longrightarrow>
   discount_rec x g ! i = x ! i + g * (if Suc i < length x then discount_rec x g ! Suc i else 0)"
proof (induction x arbitrary: i)
  case Nil
  then show ?case by simp
next
  case (Cons a x)
  show ?case
  proof (cases i)
    case 0
    show ?thesis
    proof (cases "discount_rec x g")
      case Nil
      then have "x = []" using length_discount_rec [of x g] by simp
      then show ?thesis using 0 by simp
    next
      case (Cons y ys)
      then have "x \<noteq> []" by auto
      then show ?thesis using 0 Cons by simp
    qed
  next
    case (Suc j)
    then show ?thesis using Cons.IH [of j] Cons.prems by simp
  qed
qed

text \<open>
  Claim C1. \<open>discount x gamma\<close> is the reverse-time discounted cumulative sum: it has the
  length of \<open>x\<close>, its entry \<open>i\<close> is \<open>x[i] + gamma * output[i+1]\<close>, with 0 in the place of
  the output beyond the end, and for \<open>gamma = 0.5\<close> and input \<open>[1,1,1]\<close> it is
  \<open>[1.75, 1.5, 1.0]\<close>.
\<close>

theorem discount_recurrence:
  "length (discount x gamma) = length x
   \<and> (\<forall>i. i < length x \<longrightarrow>
        discount x gamma ! i
          = x ! i + gamma * (if Suc i < length x then discount x gamma ! Suc i else 0))
   \<and> discount [1, 1, 1] (1 / 2) = [7 / 4, 3 / 2, 1]"
proof -
  have "discount [1, 1, 1] (1 / 2) = [7 / 4, 3 / 2, 1 :: real]"
    by (simp add: discount_eq_rec)
  then show ?thesis
    by (simp add: discount_eq_rec length_discount_rec discount_rec_nth)
qed

theorem discount_recurrence_witness:
  "discount [2, 4] (1 / 2) ! 0 = 2 + (1 / 2) * discount [2, 4] (1 / 2) ! 1
   \<and> discount [2, 4] (1 / 2) ! 1 = 4
   \<and> discount [1, 1, 1] (1 / 2) = [7 / 4, 3 / 2, 1]"
proof -
  have h: "length (discount [2, 4] (1 / 2)) = length [2, 4 :: real]
     \<and> (\<forall>i. i < length [2, 4 :: real] \<longrightarrow>
          discount [2, 4] (1 / 2) ! i
            = [2, 4] ! i + (1 / 2) * (if Suc i < length [2, 4 :: real]
                 then discount [2, 4] (1 / 2) ! Suc i else 0))
     \<and> discount [1, 1, 1] (1 / 2) = [7 / 4, 3 / 2, 1]"
    by (rule discount_recurrence)
  from h have a: "discount [2, 4] (1 / 2) ! 0 = 2 + (1 / 2) * discount [2, 4] (1 / 2) ! 1"
    by (auto dest: spec [of _ 0])
  from h have b: "discount [2, 4] (1 / 2) ! 1 = 4"
    by (auto dest: spec [of _ 1])
  from h a b show ?thesis by simp
qed

section \<open>Training targets: proofs\<close>

lemma td_residuals_const:
  "td_residuals (replicate n r) (replicate n v' @ [v']) g = replicate n (r + g * v' - v')"
proof -
  have t: "tl (replicate n v' @ [v']) = replicate n v'"
    by (cases n) (simp_all add: replicate_append_same)
  have b: "butlast (replicate n v' @ [v']) = replicate n v'"
    by simp
  show ?thesis
    unfolding td_residuals_def t b by simp
qed

lemma discount_rec_const:
  "i < n \<Longrightarrow> discount_rec (replicate n c) g ! i = c * (\<Sum>k<n - i. g ^ k)"
proof (induction n arbitrary: i)
  case 0
  then show ?case by simp
next
  case (Suc n)
  show ?case
  proof (cases i)
    case 0
    show ?thesis
    proof (cases n)
      case 0
      then show ?thesis using \<open>i = 0\<close> by simp
    next
      case (Suc m)
      have len: "length (discount_rec (replicate n c) g) = n"
        by (simp add: length_discount_rec)
      then obtain y ys where yys: "discount_rec (replicate n c) g = y # ys"
        using Suc by (cases "discount_rec (replicate n c) g") simp_all
      have "y = discount_rec (replicate n c) g ! 0" using yys by simp
      also have "\<dots> = c * (\<Sum>k<n. g ^ k)"
        using Suc.IH [of 0] Suc by simp
      finally have y: "y = c * (\<Sum>k<n. g ^ k)" .
      have "(\<Sum>k<Suc n. g ^ k) = 1 + g * (\<Sum>k<n. g ^ k)"
        by (simp add: sum.lessThan_Suc_shift sum_distrib_left del: sum.lessThan_Suc)
      then show ?thesis
        using \<open>i = 0\<close> yys y by (simp add: algebra_simps)
    qed
  next
    case (Suc j)
    then show ?thesis using Suc.IH [of j] Suc.prems by simp
  qed
qed

text \<open>
  Claim C2, as stated, fails: with two steps of reward 1, value estimates 0, bootstrap
  value 0 and discount factor 1/2, the first advantage is 3/2, while
  \<open>r + (g - 1) * v\<close> is 1.
\<close>

theorem advantages_constant_counterexample:
  "snd (computeAdvantages [1, 1] [0, 0] 0 (1 / 2)) ! 0 \<noteq> 1 + (1 / 2 - 1) * 0"
  by (simp add: computeAdvantages_def Let_def td_residuals_def discount_eq_rec)

text \<open>
  Claim C2, amended. With \<open>n\<close> rewards all equal to \<open>r\<close>, value estimates all equal to
  \<open>v\<close>, bootstrap value \<open>v\<close> and discount factor \<open>g\<close>, there are \<open>n\<close> advantages, and
  advantage \<open>i\<close> is \<open>(r + (g - 1) * v) * (1 + g + ... + g^(n - 1 - i))\<close>: the constant
  residual, discounted over the steps that remain. The last advantage is
  \<open>r + (g - 1) * v\<close>.
\<close>

theorem advantages_constant:
  "length (snd (computeAdvantages (replicate n r) (replicate n v') v' g)) = n
   \<and> (\<forall>i. i < n \<longrightarrow>
        snd (computeAdvantages (replicate n r) (replicate n v') v' g) ! i
          = (r + (g - 1) * v') * (\<Sum>k<n - i. g ^ k))
   \<and> (0 < n \<longrightarrow>
        last (snd (computeAdvantages (replicate n r) (replicate n v') v' g)) = r + (g - 1) * v')"
proof -
  let ?adv = "snd (computeAdvantages (replicate n r) (replicate n v') v' g)"
  have adv: "?adv = discount_rec (replicate n (r + g * v' - v')) g"
    by (simp add: computeAdvantages_def Let_def td_residuals_const discount_eq_rec)
  have len: "length ?adv = n"
    by (simp add: adv length_discount_rec)
  have nth: "?adv ! i = (r + (g - 1) * v') * (\<Sum>k<n - i. g ^ k)" if "i < n" for i
    using discount_rec_const [OF that, of "r + g * v' - v'" g] by (simp add: adv algebra_simps)
  have "last ?adv = r + (g - 1) * v'" if "0 < n"
  proof -
    have "?adv \<noteq> []" using len that by auto
    then have "last ?adv = ?adv ! (n - 1)" using len by (simp add: last_conv_nth)
    also have "\<dots> = r + (g - 1) * v'" using nth [of "n - 1"] that by simp
    finally show ?thesis .
  qed
  then show ?thesis using len nth by blast
qed

theorem advantages_constant_witness:
  "length (snd (computeAdvantages [2, 2, 2] [1, 1, 1] 1 (1 / 2))) = 3
   \<and> snd (computeAdvantages [2, 2, 2] [1, 1, 1] 1 (1 / 2)) ! 0 = 21 / 8
   \<and> snd (computeAdvantages [2, 2, 2] [1, 1, 1] 1 (1 / 2)) ! 1 = 9 / 4
   \<and> snd (computeAdvantages [2, 2, 2] [1, 1, 1] 1 (1 / 2)) ! 2 = 3 / 2
   \<and> last (snd (computeAdvantages [2, 2, 2] [1, 1, 1] 1 (1 / 2))) = 2 + (1 / 2 - 1) * 1"
proof -
  let ?adv = "snd (computeAdvantages (replicate 3 2) (replicate 3 1) 1 (1 / 2))"
  have r3: "replicate 3 x = [x, x, x]" for x :: real
    by (simp add: numeral_3_eq_3)
  have s0: "(\<Sum>k<3 - (0::nat). (1 / 2 :: real) ^ k) = 7 / 4"
    and s1: "(\<Sum>k<3 - (1::nat). (1 / 2 :: real) ^ k) = 3 / 2"
    and s2: "(\<Sum>k<3 - (2::nat). (1 / 2 :: real) ^ k) = 1"
    by (simp_all add: numeral_3_eq_3 numeral_2_eq_2)
  from advantages_constant [of 3 2 1 "1 / 2"]
  have len: "length ?adv = 3"
    and nth: "\<forall>i. i < 3 \<longrightarrow> ?adv ! i = (2 + (1 / 2 - 1) * 1) * (\<Sum>k<3 - i. (1 / 2) ^ k)"
    and lst: "last ?adv = 2 + (1 / 2 - 1) * 1"
    by simp_all
  have n0: "?adv ! 0 = (2 + (1 / 2 - 1) * 1) * (\<Sum>k<3 - (0::nat). (1 / 2) ^ k)"
    by (rule nth [rule_format]) simp
  have n1: "?adv ! 1 = (2 + (1 / 2 - 1) * 1) * (\<Sum>k<3 - (1::nat). (1 / 2) ^ k)"
    by (rule nth [rule_format]) simp
  have n2: "?adv ! 2 = (2 + (1 / 2 - 1) * 1) * (\<Sum>k<3 - (2::nat). (1 / 2) ^ k)"
    by (rule nth [rule_format]) simp
  have v0: "?adv ! 0 = 21 / 8" unfolding n0 s0 by simp
  have v1: "?adv ! 1 = 9 / 4" unfolding n1 s1 by simp
  have v2: "?adv ! 2 = 3 / 2" unfolding n2 s2 by simp
  from len v0 v1 v2 lst show ?thesis unfolding r3 by blast
qed

section \<open>Removing unavailable actions: proofs\<close>

lemma AgentModel_example: "AgentModel example_definitions ''T'' False 2 1 30 100 = Inr example_model"
  by (simp add: AgentModel_def example_definitions_def example_model_def reset_def setup_actions_def
     calculate_nonspatial_size_def Let_def numeral_2_eq_2)


lemma filter_unavailable_length:
  "filter_unavailable d m obs k row = Inr masked \<Longrightarrow> length masked = length row"
  by (induction row arbitrary: k masked) (auto split: sum.splits)

lemma filter_unavailable_nth:
  "filter_unavailable d m obs k row = Inr masked \<Longrightarrow> i < length row \<Longrightarrow>
   \<exists>f av. get_action d m (k + i) = Inr f \<and> dict_get obs ''available_actions'' = Inr av
     \<and> masked ! i = (if int (fn_id f) \<notin> set (reshape_flat av) then 0 else row ! i)"
proof (induction row arbitrary: k masked i)
  case Nil
  then show ?case by simp
next
  case (Cons p row)
  from Cons.prems(1) obtain f av rest' where
    f: "get_action d m k = Inr f" and av: "dict_get obs ''available_actions'' = Inr av"
    and rest: "filter_unavailable d m obs (Suc k) row = Inr rest'"
    and masked: "masked = (if int (fn_id f) \<notin> set (reshape_flat av) then 0 else p) # rest'"
    by (auto split: sum.splits)
  show ?case
  proof (cases i)
    case 0
    then show ?thesis using f av masked by simp
  next
    case (Suc j)
    then have "j < length row" using Cons.prems(2) by simp
    from Cons.IH [OF rest this] obtain f' av' where
      "get_action d m (Suc k + j) = Inr f'" "dict_get obs ''available_actions'' = Inr av'"
      "rest' ! j = (if int (fn_id f') \<notin> set (reshape_flat av') then 0 else row ! j)"
      by blast
    then show ?thesis using Suc masked by auto
  qed
qed

lemma sum_list_renormalize: "sum_list (renormalize xs) = (if sum_list xs = 0 then 0 else 1)"
proof -
  have "sum_list (map (\<lambda>p. p / c) xs) = sum_list xs / c" for c :: real
    by (induction xs) (simp_all add: add_divide_distrib)
  then show ?thesis by (simp add: renormalize_def)
qed

lemma renormalize_nth_zero: "i < length xs \<Longrightarrow> xs ! i = 0 \<Longrightarrow> renormalize xs ! i = 0"
  by (simp add: renormalize_def)

lemma sum_list_pos:
  fixes xs :: "real list"
  assumes "\<forall>x\<in>set xs. 0 \<le> x" and "i < length xs" and "0 < xs ! i"
  shows "0 < sum_list xs"
  using assms
proof (induction xs arbitrary: i)
  case Nil
  then show ?case by simp
next
  case (Cons a xs)
  have nn: "0 \<le> sum_list xs" using Cons.prems(1) by (simp add: sum_list_nonneg)
  show ?case
  proof (cases i)
    case 0
    then show ?thesis using Cons.prems nn by simp
  next
    case (Suc j)
    then have "0 < sum_list xs" using Cons.IH [of j] Cons.prems by simp
    then show ?thesis using Cons.prems(1) by simp
  qed
qed

text \<open>
  Claim C3, amended. Whenever the filter runs through, every entry of an action whose id
  is not among the available ones is exactly 0 after the step, and the entries sum to 1
  provided the mass left by the filter is not 0; it is not 0 when no entry is negative
  and an available action has a positive probability. (The entries of unavailable actions
  being 0, the sum of all entries is the sum of the surviving ones.)
\<close>

theorem filter_and_renormalize_sum:
  assumes "filter_unavailable d m obs 0 row = Inr masked"
  shows "filter_and_renormalize d m obs row = Inr (renormalize masked)
    \<and> length (renormalize masked) = length row
    \<and> (\<forall>i f av. i < length row \<and> get_action d m i = Inr f
          \<and> dict_get obs ''available_actions'' = Inr av
          \<and> int (fn_id f) \<notin> set (reshape_flat av)
        \<longrightarrow> renormalize masked ! i = 0)
    \<and> (sum_list masked \<noteq> 0 \<longrightarrow> sum_list (renormalize masked) = 1)
    \<and> ((\<forall>p\<in>set row. 0 \<le> p)
         \<and> (\<exists>i f av. i < length row \<and> get_action d m i = Inr f
               \<and> dict_get obs ''available_actions'' = Inr av
               \<and> int (fn_id f) \<in> set (reshape_flat av) \<and> 0 < row ! i)
        \<longrightarrow> sum_list (renormalize masked) = 1)"
proof -
  have len: "length masked = length row"
    using assms by (rule filter_unavailable_length)
  have nth: "\<exists>f av. get_action d m i = Inr f \<and> dict_get obs ''available_actions'' = Inr av
     \<and> masked ! i = (if int (fn_id f) \<notin> set (reshape_flat av) then 0 else row ! i)"
    if "i < length row" for i
    using filter_unavailable_nth [OF assms that] by simp
  have a: "filter_and_renormalize d m obs row = Inr (renormalize masked)"
    using assms by (simp add: filter_and_renormalize_def)
  have b: "length (renormalize masked) = length row"
    using len by (simp add: renormalize_def)
  have c: "renormalize masked ! i = 0"
    if "i < length row" "get_action d m i = Inr f"
      "dict_get obs ''available_actions'' = Inr av" "int (fn_id f) \<notin> set (reshape_flat av)"
    for i f av
  proof -
    have "masked ! i = 0" using nth [OF that(1)] that by auto
    then show ?thesis using that(1) len by (simp add: renormalize_nth_zero)
  qed
  have e: "sum_list (renormalize masked) = 1" if "sum_list masked \<noteq> 0"
    using that by (simp add: sum_list_renormalize)
  have f: "sum_list (renormalize masked) = 1"
    if nn: "\<forall>p\<in>set row. 0 \<le> p"
      and ex: "\<exists>i f av. i < length row \<and> get_action d m i = Inr f
               \<and> dict_get obs ''available_actions'' = Inr av
               \<and> int (fn_id f) \<in> set (reshape_flat av) \<and> 0 < row ! i"
  proof -
    have mnn: "\<forall>x\<in>set masked. 0 \<le> x"
    proof
      fix x assume "x \<in> set masked"
      then obtain j where j: "j < length masked" "masked ! j = x"
        by (auto simp: in_set_conv_nth)
      then have "j < length row" using len by simp
      from nth [OF this] have "masked ! j = 0 \<or> masked ! j = row ! j" by auto
      moreover have "0 \<le> row ! j" using nn \<open>j < length row\<close> by simp
      ultimately show "0 \<le> x" using j by auto
    qed
    from ex obtain i f av where i: "i < length row" "get_action d m i = Inr f"
      "dict_get obs ''available_actions'' = Inr av"
      "int (fn_id f) \<in> set (reshape_flat av)" "0 < row ! i"
      by blast
    have "masked ! i = row ! i" using nth [OF i(1)] i by auto
    then have "0 < sum_list masked"
      using sum_list_pos [OF mnn, of i] i len by simp
    then show ?thesis by (simp add: sum_list_renormalize)
  qed
  show ?thesis using a b c e f by blast
qed

text \<open>
  Claim C3, as stated, fails: the distribution \<open>[1, 0]\<close> over the two actions, with
  only the second action available, is \<open>[0, 0]\<close> after the step, which sums to 0.
\<close>

theorem filter_and_renormalize_counterexample:
  "sum_list [1, 0 :: real] = 1 \<and> list_all (\<lambda>p. 0 \<le> p) [1, 0 :: real]
   \<and> reshape_flat (Arr1 [1]) \<noteq> []
   \<and> filter_and_renormalize example_definitions example_model
        [(''available_actions'', Arr1 [1])] [1, 0] = Inr [0, 0]
   \<and> sum_list [0, 0 :: real] \<noteq> 1"
  by (simp add: filter_and_renormalize_def renormalize_def get_action_def functions_at_def
      dict_get_def example_definitions_def example_model_def)

theorem filter_and_renormalize_sum_witness:
  "filter_and_renormalize example_definitions example_model
        [(''available_actions'', Arr1 [1])] [1 / 4, 1 / 4] = Inr [0, 1]
   \<and> sum_list [0, 1 :: real] = 1"
proof -
  have m: "filter_unavailable example_definitions example_model
        [(''available_actions'', Arr1 [1])] 0 [1 / 4, 1 / 4] = Inr [0, 1 / 4]"
    by (simp add: get_action_def functions_at_def
      dict_get_def example_definitions_def example_model_def)
  have r: "renormalize [0, 1 / 4] = [0, 1]"
    by (simp add: renormalize_def)
  show ?thesis
    using filter_and_renormalize_sum [OF m] by (simp add: r)
qed

section \<open>The all-masked case: proofs\<close>





section \<open>Unused arguments: proofs\<close>

lemma py_in_str_args: "\<not> py_in (PyStr a) (map PyArgumentType ts)"
  by (induction ts) (simp_all add: py_in_def)

lemma set_unused_arguments_all:
  "set_unused_arguments arg_sample f
     = map (\<lambda>(a, ds). (a, map (\<lambda>(k, x). (k, - 1)) ds)) arg_sample"
  by (simp add: set_unused_arguments_def py_in_str_args)

text \<open>
  Claim C4. The base action chosen is \<open>select_army\<close>, which declares one of the two
  argument types (\<open>select_add\<close>, sampled as 1, and sent as such to the environment). The
  recorded \<open>arg_sample\<close> holds the sentinel for both argument types, not for one.
\<close>

theorem recorded_arg_sample_example:
  "choose_action example_definitions example_model (1 / 100)
     [(''available_actions'', Arr1 [0, 1])] [[1 / 4, 3 / 4]]
     [(''screen'', [(0, [[1 / 4, 3 / 4]]), (1, [[1 / 4, 3 / 4]])]),
      (''select_add'', [(0, [[1 / 4, 3 / 4]])])]
     1 (\<lambda>a k. 1)
   = Inr \<lparr>chosen_base_action = 1, call_function = 1, call_arguments = [[1]],
          recorded_arg_sample =
            [(''screen'', [(0, - 1), (1, - 1)]), (''select_add'', [(0, - 1)])]\<rparr>"
  by (simp add: choose_action_def select_base_action_def filter_and_renormalize_def
      renormalize_def get_action_def functions_at_def dict_get_def example_definitions_def
      example_model_def sample_dist_def random_choice_def argmax_bool_def
      set_unused_arguments_def py_in_def select_add_def)

section \<open>Sampling: proofs\<close>

text \<open>
  On a row without two equal entries, \<open>sample_dist\<close> returns the position drawn, so each
  index is returned with its probability over the sum of the row.
\<close>

lemma first_True_distinct:
  "distinct row \<Longrightarrow> pos < length row \<Longrightarrow>
   first_True (map (\<lambda>x. x = row ! pos) row) = Some pos"
proof (induction row arbitrary: pos)
  case Nil
  then show ?case by simp
next
  case (Cons a row)
  show ?case
  proof (cases pos)
    case 0
    then show ?thesis by simp
  next
    case (Suc j)
    then have j: "j < length row" using Cons.prems(2) by simp
    then have "row ! j \<in> set row" by simp
    then have "a \<noteq> row ! j" using Cons.prems(1) by auto
    then show ?thesis using Suc Cons.IH [OF _ j] Cons.prems(1) by simp
  qed
qed

lemma sample_dist_distinct:
  assumes "distinct row" and "pos < length row"
    and "\<not> list_ex (\<lambda>x. x < 0) row" and "\<bar>sum_list row - 1\<bar> \<le> atol"
  shows "sample_dist atol [row] pos = Inr pos"
proof -
  have "row \<noteq> []" using assms(2) by auto
  then have "random_choice atol row row pos = Inr (row ! pos)"
    using assms by (simp add: random_choice_def)
  then show ?thesis
    using first_True_distinct [OF assms(1,2)] by (simp add: sample_dist_def argmax_bool_def)
qed

lemma filter_eq_upt: "i < n \<Longrightarrow> filter (\<lambda>pos. pos = i) [0..<n] = [i]"
proof (induction n)
  case 0
  then show ?case by simp
next
  case (Suc n)
  show ?case
  proof (cases "i = n")
    case True
    have "filter (\<lambda>pos. pos = n) [0..<n] = []"
      by (simp add: filter_empty_conv)
    then show ?thesis using True by simp
  next
    case False
    then have "i < n" using Suc.prems by simp
    then show ?thesis using Suc.IH False by simp
  qed
qed

lemma sample_dist_prob_distinct:
  assumes "distinct row" and "i < length row"
    and "\<not> list_ex (\<lambda>x. x < 0) row" and "\<bar>sum_list row - 1\<bar> \<le> atol"
  shows "sample_dist_prob atol [row] i = row ! i / sum_list row"
proof -
  have "filter (\<lambda>pos. sample_dist atol [row] pos = Inr i) [0..<length row]
      = filter (\<lambda>pos. pos = i) [0..<length row]"
    by (rule filter_cong) (auto simp: sample_dist_distinct [OF assms(1) _ assms(3,4)])
  then show ?thesis
    using assms(2) by (simp add: sample_dist_prob_def filter_eq_upt choice_prob_def)
qed

text \<open>
  Claim C8. For the distribution \<open>[0.25, 0.25, 0.5]\<close>, \<open>sample_dist\<close> returns index 1
  with probability 0 and index 0 with probability 0.5: a draw of position 1 yields the
  value 0.25, whose first position is 0.
\<close>

theorem sample_dist_ties:
  "sample_dist_prob (1 / 100) [[1 / 4, 1 / 4, 1 / 2]] 0 = 1 / 2
   \<and> sample_dist_prob (1 / 100) [[1 / 4, 1 / 4, 1 / 2]] 1 = 0
   \<and> sample_dist_prob (1 / 100) [[1 / 4, 1 / 4, 1 / 2]] 2 = 1 / 2
   \<and> sample_dist (1 / 100) [[1 / 4, 1 / 4, 1 / 2]] 1 = Inr 0"
  by (simp add: sample_dist_prob_def sample_dist_def random_choice_def argmax_bool_def
      choice_prob_def)

section \<open>The rollout buffer: proofs\<close>

text \<open>
  Claim C5. At the end of a step, \<open>self.train\<close> is called exactly when the buffer holds
  \<open>max_episodes_kept\<close> rows, the episode has not ended and the step count is not
  \<open>max_episode_length - 1\<close>. It is called on the whole buffer, and afterwards the buffer
  is its last \<open>C - C div 2\<close> rows in their order (\<open>C\<close> being \<open>max_episodes_kept\<close>);
  otherwise nothing changes.
\<close>

theorem train_if_due_rollover:
  "(train_calls (train_if_due m L ended b w) \<noteq> train_calls w
      \<longleftrightarrow> length (episode_buffer w) = max_episodes_kept m \<and> \<not> ended
          \<and> int (episode_step_count w) \<noteq> L - 1)
   \<and> (length (episode_buffer w) = max_episodes_kept m \<and> \<not> ended
        \<and> int (episode_step_count w) \<noteq> L - 1
      \<longrightarrow> train_calls (train_if_due m L ended b w) = train_calls w @ [(episode_buffer w, b)]
        \<and> episode_buffer (train_if_due m L ended b w)
            = drop (max_episodes_kept m div 2) (episode_buffer w)
        \<and> length (episode_buffer (train_if_due m L ended b w))
            = max_episodes_kept m - max_episodes_kept m div 2
        \<and> take (max_episodes_kept m div 2) (episode_buffer w)
            @ episode_buffer (train_if_due m L ended b w) = episode_buffer w)
   \<and> (\<not> (length (episode_buffer w) = max_episodes_kept m \<and> \<not> ended
          \<and> int (episode_step_count w) \<noteq> L - 1)
      \<longrightarrow> train_if_due m L ended b w = w)"
  by (auto simp: train_if_due_def train_due_def)

theorem train_if_due_rollover_witness:
  "length (episode_buffer example_episode) = max_episodes_kept example_model
   \<and> train_calls (train_if_due example_model 300 False 0 example_episode)
       = [(replicate 30 example_row, 0)]
   \<and> length (episode_buffer (train_if_due example_model 300 False 0 example_episode)) = 15
   \<and> train_if_due example_model 300 True 0 example_episode = example_episode
   \<and> train_if_due example_model 31 False 0 example_episode = example_episode"
  using train_if_due_rollover [of example_model 300 False 0 example_episode]
    train_if_due_rollover [of example_model 300 True 0 example_episode]
    train_if_due_rollover [of example_model 31 False 0 example_episode]
  by (simp add: example_episode_def example_model_def)

section \<open>The unit memory: proofs\<close>

lemma update_units_seen_other:
  "update_units_seen fl ks mus cnt = Inr mus' \<Longrightarrow>
   length mus' = length mus \<and> (\<forall>i. i \<notin> set ks \<longrightarrow> mus' ! i = mus ! i)"
proof (induction ks arbitrary: mus)
  case Nil
  then show ?case by simp
next
  case (Cons k ks)
  from Cons.prems have k: "k < length mus" "k < length cnt"
    and rest: "update_units_seen fl ks (mus[k := max (fl (fl (mus ! k * 3) / 4)) (cnt ! k)]) cnt
                 = Inr mus'"
    by (auto split: if_splits)
  from Cons.IH [OF rest] show ?case by auto
qed


lemma process_observation_units:
  assumes "process_observation d m ts = Inr (m', out)"
  shows "\<exists>cnt. observed_enemy_unit_types d m ts = Inr cnt
    \<and> update_units_seen (float_round d) [1..<UNIT_TYPES d] (max_units_seen m) cnt
        = Inr (max_units_seen m')"
  using assms unfolding process_observation_def observed_enemy_unit_types_def
  by (auto split: sum.splits)

lemma act_units: "act d m a = Inr m' \<Longrightarrow> max_units_seen m' = max_units_seen m"
  by (auto simp: act_def split: if_splits)

lemma process_observation_index_0:
  assumes "process_observation d m ts = Inr (m', out)"
  shows "max_units_seen m' ! 0 = max_units_seen m ! 0"
proof -
  from process_observation_units [OF assms] obtain cnt where
    "update_units_seen (float_round d) [1..<UNIT_TYPES d] (max_units_seen m) cnt
       = Inr (max_units_seen m')"
    by blast
  from update_units_seen_other [OF this] show ?thesis by simp
qed

lemma units_invariant_reset: "units_invariant d (reset d m0)"
  by (simp add: units_invariant_def reset_def)

lemma units_invariant_process:
  assumes "units_invariant d m" and "process_observation d m ts = Inr (m', out)"
  shows "units_invariant d m'"
proof -
  from process_observation_units [OF assms(2)] obtain cnt where
    upd: "update_units_seen (float_round d) [1..<UNIT_TYPES d] (max_units_seen m) cnt
            = Inr (max_units_seen m')"
    by blast
  from update_units_seen_other [OF upd] assms(1) show ?thesis
    by (simp add: units_invariant_def)
qed

lemma units_invariant_act: "units_invariant d m \<Longrightarrow> act d m a = Inr m' \<Longrightarrow> units_invariant d m'"
  by (simp add: units_invariant_def act_units)

lemma units_invariant_run:
  "units_invariant d m \<Longrightarrow> run_events d m es = Inr m' \<Longrightarrow> units_invariant d m'"
proof (induction es arbitrary: m)
  case Nil
  then show ?case by simp
next
  case (Cons e es)
  show ?case
  proof (cases e)
    case (Observe ts)
    with Cons.prems(2) obtain res where res: "process_observation d m ts = Inr res"
      and rest: "run_events d (fst res) es = Inr m'"
      by (auto split: sum.splits)
    from res have "process_observation d m ts = Inr (fst res, snd res)" by simp
    from units_invariant_process [OF Cons.prems(1) this] Cons.IH rest show ?thesis by blast
  next
    case (Act a)
    with Cons.prems(2) obtain m1 where m1: "act d m a = Inr m1"
      and rest: "run_events d m1 es = Inr m'"
      by (auto split: sum.splits)
    from units_invariant_act [OF Cons.prems(1) m1] Cons.IH rest show ?thesis by blast
  qed
qed

subsection \<open>Rounding\<close>










subsection \<open>Rounding to a grid\<close>












subsection \<open>The small instance\<close>

lemmas example_eval =
  example_timestep_def quiet_timestep_def selected_timestep_def example_observation_def
  dict_get_def count_enemy_unit_types_def shape_at_def example_model_def
  example_definitions_def scan_cell_def ENEMY_def increment_at_def Let_def numeral_2_eq_2
  get_action_def functions_at_def spatial_features_def padded_features_def max_no_def
  SELECT_SIZE_def length_concat sum_list_replicate

lemma observed_example:
  "observed_enemy_unit_types example_definitions example_model example_timestep = Inr [1, 1]"
  by (simp add: observed_enemy_unit_types_def example_eval)

lemma observe_example:
  "\<exists>out. process_observation example_definitions example_model example_timestep
     = Inr (example_model\<lparr>max_units_seen := [0, 1]\<rparr>, out)"
  by (simp add: process_observation_def example_eval)

lemma run_example:
  "run_events example_definitions (reset example_definitions example_model)
     [Observe example_timestep] = Inr (example_model\<lparr>max_units_seen := [0, 1]\<rparr>)"
  by (simp add: reset_def process_observation_def example_eval)

lemma quiet_example:
  "\<exists>out. process_observation example_definitions (example_model\<lparr>max_units_seen := [0, 1]\<rparr>)
     quiet_timestep = Inr (example_model\<lparr>max_units_seen := [0, 3 / 4]\<rparr>, out)"
  by (simp add: process_observation_def example_eval)

lemma observed_quiet:
  "observed_enemy_unit_types example_definitions (example_model\<lparr>max_units_seen := [0, 1]\<rparr>)
     quiet_timestep = Inr [0, 0]"
  by (simp add: observed_enemy_unit_types_def example_eval)










text \<open>
  Claim C10. \<open>process_observation\<close> leaves \<open>max_units_seen[0]\<close> as it is, whatever the
  screen shows, so that from \<open>reset\<close> on it is 0 throughout the episode.
\<close>

theorem max_units_seen_index_0:
  "(process_observation d m ts = Inr (m', out) \<longrightarrow> max_units_seen m' ! 0 = max_units_seen m ! 0)
   \<and> (run_events d (reset d m0) es = Inr m1 \<and> 0 < UNIT_TYPES d \<longrightarrow> max_units_seen m1 ! 0 = 0)"
proof -
  have "max_units_seen m1 ! 0 = 0" if "run_events d (reset d m0) es = Inr m1" "0 < UNIT_TYPES d"
    using units_invariant_run [OF units_invariant_reset that(1)] that(2)
    by (simp add: units_invariant_def)
  then show ?thesis using process_observation_index_0 by blast
qed

theorem max_units_seen_index_0_witness:
  "observed_enemy_unit_types example_definitions example_model example_timestep = Inr [1, 1]
   \<and> (\<exists>m. run_events example_definitions (reset example_definitions example_model)
              [Observe example_timestep] = Inr m
        \<and> max_units_seen m = [0, 1]
        \<and> max_units_seen m ! 0 = max_units_seen example_model ! 0
        \<and> max_units_seen m ! 0 = 0)"
proof -
  let ?m = "example_model\<lparr>max_units_seen := [0, 1]\<rparr>"
  from observe_example obtain out where
    step: "process_observation example_definitions example_model example_timestep
             = Inr (?m, out)"
    by blast
  have u: "0 < UNIT_TYPES example_definitions"
    by (simp add: example_definitions_def)
  from max_units_seen_index_0 [of example_definitions example_model example_timestep
      ?m out example_model "[Observe example_timestep]" ?m]
    step run_example u
  have "max_units_seen ?m ! 0 = max_units_seen example_model ! 0 \<and> max_units_seen ?m ! 0 = 0"
    by blast
  then have "max_units_seen ?m = [0, 1]
      \<and> max_units_seen ?m ! 0 = max_units_seen example_model ! 0
      \<and> max_units_seen ?m ! 0 = 0"
    by simp
  with run_example have g:
    "run_events example_definitions (reset example_definitions example_model)
              [Observe example_timestep] = Inr ?m
        \<and> max_units_seen ?m = [0, 1]
        \<and> max_units_seen ?m ! 0 = max_units_seen example_model ! 0
        \<and> max_units_seen ?m ! 0 = 0"
    by (rule conjI)
  have "\<exists>m. run_events example_definitions (reset example_definitions example_model)
              [Observe example_timestep] = Inr m
        \<and> max_units_seen m = [0, 1]
        \<and> max_units_seen m ! 0 = max_units_seen example_model ! 0
        \<and> max_units_seen m ! 0 = 0"
    by (rule exI [of _ ?m], rule g)
  with observed_example show ?thesis by (rule conjI)
qed

section \<open>The length of the nonspatial vector: proofs\<close>

text \<open>With one unit selected, the vector has the length \<open>calculate_nonspatial_size\<close> gives.\<close>

lemma nonspatial_length_selected_example:
  "map_sum id (\<lambda>res. map length (nonspatial_stack (snd res)))
     (process_observation example_definitions example_model selected_timestep) = Inr [7130]"
  by (simp add: process_observation_def example_eval)

text \<open>
  Claim C9. For the model that \<open>AgentModel\<close> builds, \<open>calculate_nonspatial_size\<close> is
  7130, which counts 7 entries for \<open>single_select\<close>. For an observation in which nothing
  is selected (\<open>single_select\<close> has no row), \<open>process_observation\<close> returns a nonspatial
  vector of length 7123.
\<close>

theorem nonspatial_length_example:
  "AgentModel example_definitions ''T'' False 2 1 30 100 = Inr example_model
   \<and> calculate_nonspatial_size example_definitions example_model = Inr 7130
   \<and> map_sum id (\<lambda>res. map length (nonspatial_stack (snd res)))
       (process_observation example_definitions example_model example_timestep) = Inr [7123]"
proof -
  have a: "calculate_nonspatial_size example_definitions example_model = Inr 7130"
    by (simp add: calculate_nonspatial_size_def example_definitions_def example_model_def)
  have b: "map_sum id (\<lambda>res. map length (nonspatial_stack (snd res)))
       (process_observation example_definitions example_model example_timestep) = Inr [7123]"
    by (simp add: process_observation_def example_eval)
  show ?thesis using AgentModel_example a b by simp
qed

end
